theory Spec2Isabelle
  imports Complex_Main "HOL-Library.AList"
begin

section \<open>Battery cell monitoring dashboard\<close>

text \<open>
  The development embeds \<^verbatim>\<open>battery_dashboard.py\<close>. Numbers that the script holds in
  Python floats are modelled as real numbers: every constant of the script is a short
  decimal, and the embedding gives \<^verbatim>\<open>+\<close>, \<^verbatim>\<open>*\<close>, \<^verbatim>\<open>/\<close>, \<^verbatim>\<open>abs\<close>, \<^verbatim>\<open>max\<close> and the comparisons
  their mathematical meaning. A double differs from the number it stands for by a
  rounding error (of the order of \<open>10\<^sup>-\<^sup>1\<^sup>4\<close> at most here). The model does not compute
  that error. It matters in one place, \<^verbatim>\<open>round\<close>, and is an input of the model there.
\<close>

section \<open>The cell simulator\<close>

subsection \<open>Python's \<^verbatim>\<open>round(x, ndigits)\<close>\<close>

text \<open>
  \<^verbatim>\<open>round(x, ndigits)\<close> returns the multiple of \<open>10\<^sup>-\<^sup>n\<close> nearest to the double \<open>x\<close>; of two
  equally near multiples it returns the even one. This is the rounding of a double that
  the model has as it is: a value of the random number generator.
\<close>

definition round_half_even :: "real \<Rightarrow> int" where
  "round_half_even x =
     (let f = \<lfloor>x\<rfloor>; d = x - of_int f
      in if d < 1 / 2 then f
         else if 1 / 2 < d then f + 1
         else if even f then f else f + 1)"

definition py_round :: "real \<Rightarrow> nat \<Rightarrow> real" where
  "py_round x ndigits = of_int (round_half_even (x * 10 ^ ndigits)) / 10 ^ ndigits"

text \<open>
  Where the script rounds a double that it has computed, the model has the number that
  the double stands for, not the double. Where that number is in the middle between
  two multiples, or within \<open>float_slack\<close> (in units of the last digit kept) of the
  middle, the double may lie on either side of the middle, or on it, and the code may
  return either multiple: for the mean 98.25 of 98 and 98.5 the script's doubles give
  98.25000000000001 and the health 98.3, for the mean 98.75 of 98.5 and 99 they give
  98.74999999999999 and the health 98.7. There the side is an input of the model,
  \<open>True\<close> for the upper multiple. Everywhere else the nearest multiple is returned.
\<close>

definition float_slack :: real where
  "float_slack = 1 / 10 ^ 9"

definition round_nearest :: "bool \<Rightarrow> real \<Rightarrow> int" where
  "round_nearest up x =
     (let f = \<lfloor>x\<rfloor>; d = x - of_int f
      in if d < 1 / 2 - float_slack then f
         else if 1 / 2 + float_slack < d then f + 1
         else if up then f + 1 else f)"

definition py_round_computed :: "bool \<Rightarrow> real \<Rightarrow> nat \<Rightarrow> real" where
  "py_round_computed up x ndigits = of_int (round_nearest up (x * 10 ^ ndigits)) / 10 ^ ndigits"


subsection \<open>\<^verbatim>\<open>CELL_CONFIGS\<close>\<close>

record config =
  nominal_voltage :: real
  min_voltage :: real
  max_voltage :: real
  color :: string

definition LFP :: config where
  "LFP = \<lparr>nominal_voltage = 3.2, min_voltage = 2.8, max_voltage = 3.6, color = ''#2ecc71''\<rparr>"

definition NMC :: config where
  "NMC = \<lparr>nominal_voltage = 3.6, min_voltage = 3.2, max_voltage = 4.0, color = ''#e74c3c''\<rparr>"

definition LTO :: config where
  "LTO = \<lparr>nominal_voltage = 2.4, min_voltage = 1.5, max_voltage = 2.8, color = ''#f39c12''\<rparr>"

definition LiCoO2 :: config where
  "LiCoO2 = \<lparr>nominal_voltage = 3.7, min_voltage = 3.0, max_voltage = 4.2, color = ''#9b59b6''\<rparr>"

text \<open>The dictionary, in the order the script writes it.\<close>

definition CELL_CONFIGS :: "(string \<times> config) list" where
  "CELL_CONFIGS = [(''LFP'', LFP), (''NMC'', NMC), (''LTO'', LTO), (''LiCoO2'', LiCoO2)]"

subsection \<open>\<^verbatim>\<open>generate_cell_data\<close>\<close>

text \<open>A \<^verbatim>\<open>datetime\<close> is a point on a discrete time line.\<close>

type_synonym datetime = int

text \<open>
  The dictionary that \<^verbatim>\<open>generate_cell_data\<close> returns. The keys \<^verbatim>\<open>min_voltage\<close> and
  \<^verbatim>\<open>max_voltage\<close> are the fields \<open>lo_voltage\<close> and \<open>hi_voltage\<close>, since the profile record
  has the names already.
\<close>

record reading =
  cell_id :: string
  cell_type :: string
  voltage :: real
  current :: real
  temperature :: real
  power :: real
  capacity :: real
  health :: real
  status :: string
  timestamp :: datetime
  lo_voltage :: real
  hi_voltage :: real

text \<open>
  What one call takes from outside. First the four values from the random number
  generator, in the order of the calls: \<^verbatim>\<open>random.uniform(-0.1, 0.1)\<close>,
  \<^verbatim>\<open>random.uniform(-5.0, 5.0)\<close>, \<^verbatim>\<open>random.uniform(-2, 8)\<close> and
  \<^verbatim>\<open>random.uniform(2.8, 3.2)\<close>. Then, for each of the four calls of \<^verbatim>\<open>round\<close> on a
  computed double, the side at a middle (see \<open>round_nearest\<close>), named after the variable
  that the call assigns.
\<close>

record draws =
  voltage_draw :: real
  current_draw :: real
  temp_draw :: real
  capacity_draw :: real
  voltage_up :: bool
  temp_up :: bool
  power_up :: bool
  health_up :: bool

text \<open>A draw is in range when each random value lies between the bounds of its call.\<close>

definition in_range :: "draws \<Rightarrow> bool" where
  "in_range rnd \<longleftrightarrow>
     - 0.1 \<le> voltage_draw rnd \<and> voltage_draw rnd \<le> 0.1 \<and>
     - 5.0 \<le> current_draw rnd \<and> current_draw rnd \<le> 5.0 \<and>
     - 2 \<le> temp_draw rnd \<and> temp_draw rnd \<le> 8 \<and>
     2.8 \<le> capacity_draw rnd \<and> capacity_draw rnd \<le> 3.2"

datatype error = KeyError string

text \<open>The health formulas of the script (the two lines under "Health calculation").\<close>

definition voltage_health :: "config \<Rightarrow> real \<Rightarrow> real" where
  "voltage_health cfg v = 100 * (1 - \<bar>v - nominal_voltage cfg\<bar> / nominal_voltage cfg)"

definition temp_health :: "real \<Rightarrow> real" where
  "temp_health temp = 100 * max 0 (1 - max 0 (temp - 35) / 20)"

definition overall_health :: "bool \<Rightarrow> config \<Rightarrow> real \<Rightarrow> real \<Rightarrow> real" where
  "overall_health up cfg v temp =
     py_round_computed up ((voltage_health cfg v + temp_health temp) / 2) 1"

text \<open>The \<^verbatim>\<open>if\<close>/\<^verbatim>\<open>elif\<close>/\<^verbatim>\<open>else\<close> chain under "Status determination".\<close>

definition status_determination :: "config \<Rightarrow> real \<Rightarrow> real \<Rightarrow> real \<Rightarrow> string" where
  "status_determination cfg v temp h =
     (if v < min_voltage cfg \<or> v > max_voltage cfg \<or> temp > 45 then ''Critical''
      else if temp > 40 \<or> h < 80 then ''Warning''
      else ''Good'')"

text \<open>
  \<^verbatim>\<open>CELL_CONFIGS[cell_type]\<close> raises \<^verbatim>\<open>KeyError\<close> for a key the dictionary does not have;
  nothing else in the function can fail.
\<close>

definition generate_cell_data :: "string \<Rightarrow> string \<Rightarrow> datetime \<Rightarrow> draws \<Rightarrow> error + reading" where
  "generate_cell_data ctype cid current_time rnd =
     (case map_of CELL_CONFIGS ctype of
        None \<Rightarrow> Inl (KeyError ctype)
      | Some cfg \<Rightarrow>
          let base_voltage = nominal_voltage cfg;
              voltage_variation = voltage_draw rnd;
              v = py_round_computed (voltage_up rnd) (base_voltage + voltage_variation) 3;
              i = py_round (current_draw rnd) 2;
              base_temp = 25;
              temp_variation = \<bar>i\<bar> * 0.5 + temp_draw rnd;
              temp = py_round_computed (temp_up rnd) (base_temp + temp_variation) 1;
              p = py_round_computed (power_up rnd) (v * \<bar>i\<bar>) 2;
              cap = py_round (capacity_draw rnd) 2;
              h = overall_health (health_up rnd) cfg v temp;
              st = status_determination cfg v temp h
          in Inr \<lparr>cell_id = cid, cell_type = ctype, voltage = v, current = i,
                  temperature = temp, power = p, capacity = cap, health = h,
                  status = st, timestamp = current_time,
                  lo_voltage = min_voltage cfg, hi_voltage = max_voltage cfg\<rparr>)"

section \<open>The session state and the script\<close>

subsection \<open>\<^verbatim>\<open>st.session_state\<close>\<close>

text \<open>
  The script keeps three values between its runs: the dictionary \<^verbatim>\<open>cells_data\<close> from a cell
  id to the cell's reading, the list \<^verbatim>\<open>historical_data\<close> and the flag \<^verbatim>\<open>is_monitoring\<close>.
  A dictionary is an object that the script changes in place and that a snapshot may
  refer to, so dictionaries live in a store, \<open>heap\<close>, and the state holds their addresses.
  A new dictionary takes the address \<open>next_addr\<close>, which no earlier object has. A
  dictionary is an association list in insertion order. The readings themselves are
  values: no statement of the script writes into a reading once \<^verbatim>\<open>generate_cell_data\<close>
  has returned it.
\<close>

type_synonym addr = nat

type_synonym cells = "(string \<times> reading) list"

text \<open>
  One entry of \<^verbatim>\<open>historical_data\<close>: the keys \<^verbatim>\<open>timestamp\<close> and \<^verbatim>\<open>data\<close>. The value under
  \<^verbatim>\<open>data\<close> is the dictionary that \<^verbatim>\<open>cells_data.copy()\<close> made, held by its address.
\<close>

record snapshot =
  snap_timestamp :: datetime
  snap_data :: addr

record session_state =
  heap :: "addr \<Rightarrow> cells"
  next_addr :: addr
  cells_data :: addr
  historical_data :: "snapshot list"
  is_monitoring :: bool

text \<open>
  The state after the block "Initialize session state" has run for the first time: an
  empty dictionary, an empty list, and the flag off. In later runs the three keys exist
  and the block changes nothing.
\<close>

definition initial_session :: session_state where
  "initial_session =
     \<lparr>heap = (\<lambda>_. []), next_addr = 1, cells_data = 0, historical_data = [],
      is_monitoring = False\<rparr>"

text \<open>A dictionary display or \<^verbatim>\<open>.copy()\<close>: a new object with the given content.\<close>

definition new_dict :: "cells \<Rightarrow> session_state \<Rightarrow> addr \<times> session_state" where
  "new_dict d s =
     (next_addr s, s\<lparr>heap := (heap s)(next_addr s := d), next_addr := Suc (next_addr s)\<rparr>)"

text \<open>
  \<^verbatim>\<open>d[k] = r\<close> on the dictionary at address \<open>a\<close>: an existing key keeps its place, a new
  key goes to the end.
\<close>

definition setitem :: "addr \<Rightarrow> string \<Rightarrow> reading \<Rightarrow> session_state \<Rightarrow> session_state" where
  "setitem a k r s = s\<lparr>heap := (heap s)(a := AList.update k r (heap s a))\<rparr>"

text \<open>The decimal digits of a number, for the f-string of the cell id.\<close>

fun str_nat :: "nat \<Rightarrow> string" where
  "str_nat n =
     (if n < 10 then [char_of (48 + n)]
      else str_nat (n div 10) @ [char_of (48 + n mod 10)])"

declare str_nat.simps [simp del]

subsection \<open>One run of the script\<close>

text \<open>
  What one run reads from outside: the values of the select boxes (one per cell), which
  of the three buttons returned \<^verbatim>\<open>True\<close>, the check box, the two results of
  \<^verbatim>\<open>datetime.now()\<close> (in "Initialize Cells" and in the monitoring update), and the draws
  of the random number generator, \<open>rng inp i\<close> for call number \<open>i\<close> of
  \<^verbatim>\<open>generate_cell_data\<close> in this run.
\<close>

record run_input =
  cell_types :: "string list"
  initialize_cells :: bool
  start_monitoring :: bool
  stop_monitoring :: bool
  auto_refresh :: bool
  init_time :: datetime
  tick_time :: datetime
  rng :: "nat \<Rightarrow> draws"

text \<open>
  The loop of "Initialize Cells":
  \<^verbatim>\<open>for i, cell_type in enumerate(cell_types)\<close>, which stores one reading under
  \<^verbatim>\<open>f"Cell_{i+1}_{cell_type}"\<close>.
\<close>

fun initialize_loop ::
  "datetime \<Rightarrow> (nat \<Rightarrow> draws) \<Rightarrow> nat \<Rightarrow> string list \<Rightarrow> session_state \<Rightarrow> error + session_state" where
  "initialize_loop t g i [] s = Inr s"
| "initialize_loop t g i (ctype # rest) s =
     (let cid = ''Cell_'' @ str_nat (i + 1) @ ''_'' @ ctype
      in case generate_cell_data ctype cid t (g i) of
           Inl e \<Rightarrow> Inl e
         | Inr r \<Rightarrow> initialize_loop t g (i + 1) rest (setitem (cells_data s) cid r s))"

text \<open>
  The loop of the monitoring update, \<^verbatim>\<open>for cell_id in cells_data.keys()\<close>: it reads the
  cell type of the stored reading and stores a new reading under the same key.
\<close>

fun update_loop ::
  "datetime \<Rightarrow> (nat \<Rightarrow> draws) \<Rightarrow> nat \<Rightarrow> string list \<Rightarrow> session_state \<Rightarrow> error + session_state" where
  "update_loop t g i [] s = Inr s"
| "update_loop t g i (cid # rest) s =
     (case map_of (heap s (cells_data s)) cid of
        None \<Rightarrow> Inl (KeyError cid)
      | Some r \<Rightarrow>
          (case generate_cell_data (cell_type r) cid t (g i) of
             Inl e \<Rightarrow> Inl e
           | Inr r' \<Rightarrow> update_loop t g (i + 1) rest (setitem (cells_data s) cid r' s)))"

text \<open>
  "Store historical data" and "Keep only last 100 records": \<^verbatim>\<open>append\<close>, then
  \<^verbatim>\<open>historical_data[-100:]\<close> when the list has more than 100 entries.
\<close>

definition store_historical :: "'a list \<Rightarrow> 'a \<Rightarrow> 'a list" where
  "store_historical hist snap =
     (let hist' = hist @ [snap]
      in if length hist' > 100 then drop (length hist' - 100) hist' else hist')"

text \<open>The block under \<^verbatim>\<open>if st.session_state.is_monitoring:\<close>.\<close>

definition monitoring_update ::
  "datetime \<Rightarrow> (nat \<Rightarrow> draws) \<Rightarrow> session_state \<Rightarrow> error + session_state" where
  "monitoring_update current_time g s =
     (if is_monitoring s then
        case update_loop current_time g 0 (map fst (heap s (cells_data s))) s of
          Inl e \<Rightarrow> Inl e
        | Inr s1 \<Rightarrow>
            let (a, s2) = new_dict (heap s1 (cells_data s1)) s1
            in Inr (s2\<lparr>historical_data :=
                          store_historical (historical_data s2)
                            \<lparr>snap_timestamp = current_time, snap_data = a\<rparr>\<rparr>)
      else Inr s)"

text \<open>
  The summary metrics. \<^verbatim>\<open>np.mean\<close> of an empty list is not a number (\<open>None\<close> here);
  \<^verbatim>\<open>sum\<close> of an empty list is 0.
\<close>

record summary =
  total_cells :: nat
  good_cells :: nat
  warning_cells :: nat
  critical_cells :: nat
  avg_health :: "real option"
  total_power :: real

definition np_mean :: "real list \<Rightarrow> real option" where
  "np_mean xs = (if xs = [] then None else Some (sum_list xs / real (length xs)))"

definition summary_metrics :: "cells \<Rightarrow> summary" where
  "summary_metrics d =
     (let vals = map snd d
      in \<lparr>total_cells = length d,
          good_cells = length (filter (\<lambda>cell. status cell = ''Good'') vals),
          warning_cells = length (filter (\<lambda>cell. status cell = ''Warning'') vals),
          critical_cells = length (filter (\<lambda>cell. status cell = ''Critical'') vals),
          avg_health = np_mean (map health vals),
          total_power = sum_list (map power vals)\<rparr>)"

text \<open>
  What a run shows in the main area: the overview with its metrics, the \<^verbatim>\<open>st.info\<close>
  placeholder of the \<^verbatim>\<open>else\<close> branch, or nothing when \<^verbatim>\<open>st.rerun()\<close> ended the run in the
  sidebar. The tables and charts drawn from the readings only read the state and are
  not modelled.
\<close>

datatype view = Overview summary | Placeholder | Rerun

text \<open>The main content area, \<^verbatim>\<open>if st.session_state.cells_data: ... else: ...\<close>.\<close>

definition main_content ::
  "datetime \<Rightarrow> (nat \<Rightarrow> draws) \<Rightarrow> session_state \<Rightarrow> error + view \<times> session_state" where
  "main_content t g s =
     (if heap s (cells_data s) \<noteq> [] then
        case monitoring_update t g s of
          Inl e \<Rightarrow> Inl e
        | Inr s' \<Rightarrow> Inr (Overview (summary_metrics (heap s' (cells_data s'))), s')
      else Inr (Placeholder, s))"

text \<open>The control panel of the sidebar: the three buttons, in the order of the script.\<close>

definition sidebar :: "run_input \<Rightarrow> session_state \<Rightarrow> error + session_state" where
  "sidebar inp s =
     (case (if initialize_cells inp then
              let (a, s1) = new_dict [] s
              in initialize_loop (init_time inp) (rng inp) 0 (cell_types inp) (s1\<lparr>cells_data := a\<rparr>)
            else Inr s) of
        Inl e \<Rightarrow> Inl e
      | Inr s2 \<Rightarrow>
          let s3 = (if start_monitoring inp then s2\<lparr>is_monitoring := True\<rparr> else s2);
              s4 = (if stop_monitoring inp then s3\<lparr>is_monitoring := False\<rparr> else s3)
          in Inr s4)"

text \<open>
  One run of the script on the session state. With the check box on and the flag on,
  \<^verbatim>\<open>st.rerun()\<close> ends the run at the end of the sidebar. A run that raises ends the
  session of the model.
\<close>

definition script_run :: "run_input \<Rightarrow> session_state \<Rightarrow> error + view \<times> session_state" where
  "script_run inp s =
     (case sidebar inp s of
        Inl e \<Rightarrow> Inl e
      | Inr s' \<Rightarrow>
          if auto_refresh inp \<and> is_monitoring s' then Inr (Rerun, s')
          else main_content (tick_time inp)
                 (\<lambda>i. rng inp (i + (if initialize_cells inp then length (cell_types inp) else 0))) s')"

fun session_runs :: "run_input list \<Rightarrow> session_state \<Rightarrow> error + session_state" where
  "session_runs [] s = Inr s"
| "session_runs (inp # inps) s =
     (case script_run inp s of
        Inl e \<Rightarrow> Inl e
      | Inr (v, s') \<Rightarrow> session_runs inps s')"

subsection \<open>Predicates on runs and states\<close>

text \<open>
  A run that only refreshes the page: "Initialize Cells" and "Stop Monitoring" are not
  pressed and the check box is off, so the run reaches the main content area.
\<close>

definition plain_refresh :: "run_input \<Rightarrow> bool" where
  "plain_refresh inp \<longleftrightarrow> \<not> initialize_cells inp \<and> \<not> stop_monitoring inp \<and> \<not> auto_refresh inp"

text \<open>The select boxes offer the keys of \<^verbatim>\<open>CELL_CONFIGS\<close> only.\<close>

definition known_types :: "run_input \<Rightarrow> bool" where
  "known_types inp \<longleftrightarrow> list_all (\<lambda>c. map_of CELL_CONFIGS c \<noteq> None) (cell_types inp)"

definition valid_cells :: "cells \<Rightarrow> bool" where
  "valid_cells d \<longleftrightarrow> list_all (\<lambda>(k, r). map_of CELL_CONFIGS (cell_type r) \<noteq> None) d"

text \<open>
  No snapshot refers to the dictionary that \<^verbatim>\<open>cells_data\<close> names, and every address in
  use is below \<open>next_addr\<close>.
\<close>

definition wf_session :: "session_state \<Rightarrow> bool" where
  "wf_session s \<longleftrightarrow>
     cells_data s < next_addr s \<and>
     (\<forall>snap \<in> set (historical_data s).
        snap_data snap < next_addr s \<and> snap_data snap \<noteq> cells_data s)"

text \<open>
  How a later state relates to an earlier one: objects are only added, an old object
  other than the current dictionary keeps its content, and a snapshot is either an old
  one or refers to a new object that is not the current dictionary.
\<close>

definition evolves :: "session_state \<Rightarrow> session_state \<Rightarrow> bool" where
  "evolves s s' \<longleftrightarrow>
     next_addr s \<le> next_addr s' \<and> cells_data s' < next_addr s' \<and>
     (cells_data s' = cells_data s \<or> next_addr s \<le> cells_data s') \<and>
     (\<forall>a < next_addr s. a \<noteq> cells_data s \<longrightarrow> heap s' a = heap s a) \<and>
     (\<forall>snap \<in> set (historical_data s').
        snap \<in> set (historical_data s) \<or>
        next_addr s \<le> snap_data snap \<and> snap_data snap < next_addr s' \<and>
        snap_data snap \<noteq> cells_data s')"

subsection \<open>Example inputs\<close>

text \<open>A draw within the ranges, and the reading that the function returns for it.\<close>

definition example_draws :: draws where
  "example_draws =
     \<lparr>voltage_draw = 0.05, current_draw = 1.234, temp_draw = 3, capacity_draw = 3,
      voltage_up = False, temp_up = False, power_up = False, health_up = False\<rparr>"

definition example_reading :: reading where
  "example_reading =
     \<lparr>cell_id = ''Cell_1_LFP'', cell_type = ''LFP'', voltage = 3.25, current = 1.23,
      temperature = 28.6, power = 4, capacity = 3, health = 99.2, status = ''Good'',
      timestamp = 0, lo_voltage = 2.8, hi_voltage = 3.6\<rparr>"

text \<open>A draw at the upper end of every range, and its reading for an LTO cell.\<close>

definition edge_draws :: draws where
  "edge_draws =
     \<lparr>voltage_draw = 0.0996, current_draw = 5.0, temp_draw = 8, capacity_draw = 3.2,
      voltage_up = True, temp_up = True, power_up = True, health_up = True\<rparr>"

definition edge_reading :: reading where
  "edge_reading =
     \<lparr>cell_id = ''Cell_2_LTO'', cell_type = ''LTO'', voltage = 2.5, current = 5,
      temperature = 35.5, power = 12.5, capacity = 3.2, health = 96.7, status = ''Good'',
      timestamp = 0, lo_voltage = 1.5, hi_voltage = 2.8\<rparr>"





definition other_draws :: draws where
  "other_draws =
     \<lparr>voltage_draw = - 0.07, current_draw = - 4.4, temp_draw = 7.5, capacity_draw = 2.9,
      voltage_up = False, temp_up = True, power_up = False, health_up = True\<rparr>"

text \<open>Runs of the script: a press of each button, and a refresh of the page.\<close>

definition click_initialize :: run_input where
  "click_initialize =
     \<lparr>cell_types = [''LFP'', ''NMC''], initialize_cells = True, start_monitoring = False,
      stop_monitoring = False, auto_refresh = False, init_time = 10, tick_time = 11,
      rng = (\<lambda>_. example_draws)\<rparr>"

definition click_start :: run_input where
  "click_start =
     \<lparr>cell_types = [''LFP'', ''NMC''], initialize_cells = False, start_monitoring = True,
      stop_monitoring = False, auto_refresh = False, init_time = 20, tick_time = 21,
      rng = (\<lambda>_. example_draws)\<rparr>"

definition rerender :: run_input where
  "rerender =
     \<lparr>cell_types = [''LFP'', ''NMC''], initialize_cells = False, start_monitoring = False,
      stop_monitoring = False, auto_refresh = False, init_time = 30, tick_time = 31,
      rng = (\<lambda>_. other_draws)\<rparr>"

definition click_stop :: run_input where
  "click_stop =
     \<lparr>cell_types = [''LFP'', ''NMC''], initialize_cells = False, start_monitoring = False,
      stop_monitoring = True, auto_refresh = True, init_time = 40, tick_time = 41,
      rng = (\<lambda>_. other_draws)\<rparr>"


definition refresh_at :: "nat \<Rightarrow> run_input" where
  "refresh_at i =
     \<lparr>cell_types = [''LFP''], initialize_cells = False, start_monitoring = False,
      stop_monitoring = False, auto_refresh = False, init_time = int i, tick_time = int i,
      rng = (\<lambda>_. example_draws)\<rparr>"

text \<open>A session with one cell, with monitoring on and with monitoring off.\<close>

definition monitoring_session :: session_state where
  "monitoring_session =
     \<lparr>heap = (\<lambda>_. [])(0 := [(''Cell_1_LFP'', example_reading)]), next_addr = 1, cells_data = 0,
      historical_data = [], is_monitoring = True\<rparr>"

definition stopped_session :: session_state where
  "stopped_session =
     \<lparr>heap = (\<lambda>_. [])(0 := [(''Cell_1_LFP'', example_reading)]), next_addr = 1, cells_data = 0,
      historical_data = [], is_monitoring = False\<rparr>"

section \<open>The cell simulator: properties\<close>

subsection \<open>The chemistry lookup\<close>

lemma map_of_CELL_CONFIGS:
  "map_of CELL_CONFIGS k =
     (if k = ''LFP'' then Some LFP else if k = ''NMC'' then Some NMC
      else if k = ''LTO'' then Some LTO else if k = ''LiCoO2'' then Some LiCoO2 else None)"
  by (simp add: CELL_CONFIGS_def)

lemma known_chemistry:
  "map_of CELL_CONFIGS k = Some cfg \<Longrightarrow> cfg = LFP \<or> cfg = NMC \<or> cfg = LTO \<or> cfg = LiCoO2"
  by (simp add: map_of_CELL_CONFIGS split: if_splits)

lemma generate_cell_data_Inr:
  assumes "generate_cell_data ctype cid t rnd = Inr R"
  obtains cfg where "map_of CELL_CONFIGS ctype = Some cfg"
    and "voltage R = py_round_computed (voltage_up rnd) (nominal_voltage cfg + voltage_draw rnd) 3"
    and "current R = py_round (current_draw rnd) 2"
    and "temperature R = py_round_computed (temp_up rnd) (25 + (\<bar>current R\<bar> * 0.5 + temp_draw rnd)) 1"
    and "health R = overall_health (health_up rnd) cfg (voltage R) (temperature R)"
    and "status R = status_determination cfg (voltage R) (temperature R) (health R)"
proof (cases "map_of CELL_CONFIGS ctype")
  case None
  with assms show ?thesis by (simp add: generate_cell_data_def)
next
  case (Some cfg)
  define v where "v = py_round_computed (voltage_up rnd) (nominal_voltage cfg + voltage_draw rnd) 3"
  define i where "i = py_round (current_draw rnd) 2"
  define tm where "tm = py_round_computed (temp_up rnd) (25 + (\<bar>i\<bar> * 0.5 + temp_draw rnd)) 1"
  define h where "h = overall_health (health_up rnd) cfg v tm"
  from assms Some have "R = \<lparr>cell_id = cid, cell_type = ctype, voltage = v, current = i,
      temperature = tm, power = py_round_computed (power_up rnd) (v * \<bar>i\<bar>) 2,
      capacity = py_round (capacity_draw rnd) 2, health = h,
      status = status_determination cfg v tm h,
      timestamp = t, lo_voltage = min_voltage cfg, hi_voltage = max_voltage cfg\<rparr>"
    by (simp add: generate_cell_data_def Let_def v_def i_def tm_def h_def)
  then have "voltage R = v" "current R = i" "temperature R = tm" "health R = h"
    "status R = status_determination cfg v tm h" by simp_all
  then show ?thesis using Some that [of cfg] by (simp add: v_def i_def tm_def h_def)
qed

subsection \<open>Rounding keeps a value between the decimals that bound it\<close>

lemma round_half_even_ge: "of_int k \<le> x \<Longrightarrow> k \<le> round_half_even x"
proof -
  assume "of_int k \<le> x"
  then have "k \<le> \<lfloor>x\<rfloor>" by (simp add: le_floor_iff)
  then show ?thesis by (simp add: round_half_even_def Let_def)
qed

lemma round_half_even_le: "x \<le> of_int k \<Longrightarrow> round_half_even x \<le> k"
proof -
  assume a: "x \<le> of_int k"
  have fl: "\<lfloor>x\<rfloor> \<le> k" using a by (simp add: floor_le_iff)
  show ?thesis
  proof (cases "\<lfloor>x\<rfloor> = k")
    case True
    then have "x = of_int k" using a by (metis floor_correct order_antisym of_int_floor_le)
    then show ?thesis by (simp add: round_half_even_def)
  next
    case False
    with fl have "\<lfloor>x\<rfloor> + 1 \<le> k" by simp
    then show ?thesis by (auto simp: round_half_even_def Let_def)
  qed
qed

lemma py_round_ge: "of_int k / 10 ^ n \<le> x \<Longrightarrow> of_int k / 10 ^ n \<le> py_round x n"
  unfolding py_round_def
  by (simp add: divide_le_eq le_divide_eq round_half_even_ge  divide_right_mono)

lemma py_round_le: "x \<le> of_int k / 10 ^ n \<Longrightarrow> py_round x n \<le> of_int k / 10 ^ n"
  unfolding py_round_def
  by (simp add: divide_le_eq le_divide_eq round_half_even_le  divide_right_mono)

lemma round_nearest_ge: "of_int k \<le> x \<Longrightarrow> k \<le> round_nearest up x"
proof -
  assume "of_int k \<le> x"
  then have "k \<le> \<lfloor>x\<rfloor>" by (simp add: le_floor_iff)
  then show ?thesis by (simp add: round_nearest_def Let_def)
qed

lemma round_nearest_le: "x \<le> of_int k \<Longrightarrow> round_nearest up x \<le> k"
proof -
  assume a: "x \<le> of_int k"
  have fl: "\<lfloor>x\<rfloor> \<le> k" using a by (simp add: floor_le_iff)
  show ?thesis
  proof (cases "\<lfloor>x\<rfloor> = k")
    case True
    then have "x = of_int k" using a by (metis floor_correct order_antisym of_int_floor_le)
    then show ?thesis by (simp add: round_nearest_def float_slack_def)
  next
    case False
    with fl have "\<lfloor>x\<rfloor> + 1 \<le> k" by simp
    then show ?thesis by (auto simp: round_nearest_def Let_def)
  qed
qed

lemma py_round_computed_ge:
  "of_int k / 10 ^ n \<le> x \<Longrightarrow> of_int k / 10 ^ n \<le> py_round_computed up x n"
  unfolding py_round_computed_def
  by (simp add: divide_le_eq le_divide_eq round_nearest_ge  divide_right_mono)

lemma py_round_computed_le:
  "x \<le> of_int k / 10 ^ n \<Longrightarrow> py_round_computed up x n \<le> of_int k / 10 ^ n"
  unfolding py_round_computed_def
  by (simp add: divide_le_eq le_divide_eq round_nearest_le  divide_right_mono)




lemma voltage_band:
  assumes cfg: "cfg = LFP \<or> cfg = NMC \<or> cfg = LTO \<or> cfg = LiCoO2"
    and d: "- 0.1 \<le> d" "d \<le> 0.1"
  shows "nominal_voltage cfg - 0.1 \<le> py_round_computed up (nominal_voltage cfg + d) 3"
    and "py_round_computed up (nominal_voltage cfg + d) 3 \<le> nominal_voltage cfg + 0.1"
proof -
  obtain k :: int where k: "nominal_voltage cfg = of_int k / 10 ^ 3 + 0.1"
    using cfg
  proof (elim disjE)
    assume "cfg = LFP" then show ?thesis using that [of 3100] by (simp add: LFP_def)
  next
    assume "cfg = NMC" then show ?thesis using that [of 3500] by (simp add: NMC_def)
  next
    assume "cfg = LTO" then show ?thesis using that [of 2300] by (simp add: LTO_def)
  next
    assume "cfg = LiCoO2" then show ?thesis using that [of 3600] by (simp add: LiCoO2_def)
  qed
  have "of_int k / 10 ^ 3 \<le> nominal_voltage cfg + d" using k d by simp
  from py_round_computed_ge [OF this, where up = up] show "nominal_voltage cfg - 0.1 \<le> py_round_computed up (nominal_voltage cfg + d) 3"
    using k by simp
  have "nominal_voltage cfg + d \<le> of_int (k + 200) / 10 ^ 3" using k d by simp
  from py_round_computed_le [OF this, where up = up] show "py_round_computed up (nominal_voltage cfg + d) 3 \<le> nominal_voltage cfg + 0.1"
    using k by simp
qed

lemma current_band:
  assumes "- 5.0 \<le> d" "d \<le> 5.0"
  shows "\<bar>py_round d 2\<bar> \<le> 5"
proof -
  have "of_int (- 500) / 10 ^ 2 \<le> d" "d \<le> of_int 500 / 10 ^ 2" using assms by simp_all
  from py_round_ge [OF this(1)] py_round_le [OF this(2)] show ?thesis by simp
qed

lemma temperature_band:
  assumes i: "\<bar>i\<bar> \<le> 5" and d: "- 2 \<le> d" "d \<le> 8"
  shows "23 \<le> py_round_computed up (25 + (\<bar>i\<bar> * 0.5 + d)) 1"
    and "py_round_computed up (25 + (\<bar>i\<bar> * 0.5 + d)) 1 \<le> 35.5"
proof -
  have "of_int 230 / 10 ^ 1 \<le> 25 + (\<bar>i\<bar> * 0.5 + d)" using i d by simp
  from py_round_computed_ge [OF this, where up = up] show "23 \<le> py_round_computed up (25 + (\<bar>i\<bar> * 0.5 + d)) 1" by simp
  have "25 + (\<bar>i\<bar> * 0.5 + d) \<le> of_int 355 / 10 ^ 1" using i d by simp
  from py_round_computed_le [OF this, where up = up] show "py_round_computed up (25 + (\<bar>i\<bar> * 0.5 + d)) 1 \<le> 35.5" by simp
qed

lemma temp_health_band:
  assumes "temp \<le> 35.5"
  shows "97.5 \<le> temp_health temp" and "temp_health temp \<le> 100"
  using assms by (simp_all add: temp_health_def max_def)

lemma voltage_health_band:
  assumes cfg: "cfg = LFP \<or> cfg = NMC \<or> cfg = LTO \<or> cfg = LiCoO2"
    and v: "nominal_voltage cfg - 0.1 \<le> v" "v \<le> nominal_voltage cfg + 0.1"
  shows "100 * (1 - 0.1 / 2.4) \<le> voltage_health cfg v" and "voltage_health cfg v \<le> 100"
proof -
  have a: "\<bar>v - nominal_voltage cfg\<bar> \<le> 0.1" using v by linarith
  have n: "2.4 \<le> nominal_voltage cfg"
    using cfg by (auto simp: LFP_def NMC_def LTO_def LiCoO2_def)
  have "\<bar>v - nominal_voltage cfg\<bar> / nominal_voltage cfg \<le> 0.1 / 2.4"
    using a n by (intro frac_le) simp_all
  then show "100 * (1 - 0.1 / 2.4) \<le> voltage_health cfg v"
    by (simp add: voltage_health_def)
  have "0 \<le> \<bar>v - nominal_voltage cfg\<bar> / nominal_voltage cfg" using n by simp
  then show "voltage_health cfg v \<le> 100" by (simp add: voltage_health_def)
qed

lemma overall_health_band:
  assumes vh: "100 * (1 - 0.1 / 2.4) \<le> voltage_health cfg v" "voltage_health cfg v \<le> 100"
    and th: "97.5 \<le> temp_health temp" "temp_health temp \<le> 100"
  shows "96.6 \<le> overall_health up cfg v temp" and "overall_health up cfg v temp \<le> 100"
proof -
  have "of_int 966 / 10 ^ 1 \<le> (voltage_health cfg v + temp_health temp) / 2" using vh th by simp
  from py_round_computed_ge [OF this, where up = up] show "96.6 \<le> overall_health up cfg v temp"
    by (simp add: overall_health_def)
  have "(voltage_health cfg v + temp_health temp) / 2 \<le> of_int 1000 / 10 ^ 1" using vh th by simp
  from py_round_computed_le [OF this, where up = up] show "overall_health up cfg v temp \<le> 100"
    by (simp add: overall_health_def)
qed


lemma generated_bands:
  assumes cfg: "map_of CELL_CONFIGS ctype = Some cfg"
    and R: "generate_cell_data ctype cid t rnd = Inr R"
    and rnd: "in_range rnd"
  shows "nominal_voltage cfg - 0.1 \<le> voltage R" and "voltage R \<le> nominal_voltage cfg + 0.1"
    and "23 \<le> temperature R" and "temperature R \<le> 35.5"
    and "97.5 \<le> temp_health (temperature R)"
    and "100 * (1 - 0.1 / 2.4) \<le> voltage_health cfg (voltage R)"
    and "96.6 \<le> health R" and "health R \<le> 100"
proof -
  from R obtain cfg' where c': "map_of CELL_CONFIGS ctype = Some cfg'"
    and v: "voltage R = py_round_computed (voltage_up rnd) (nominal_voltage cfg' + voltage_draw rnd) 3"
    and i: "current R = py_round (current_draw rnd) 2"
    and tm: "temperature R = py_round_computed (temp_up rnd) (25 + (\<bar>current R\<bar> * 0.5 + temp_draw rnd)) 1"
    and h: "health R = overall_health (health_up rnd) cfg' (voltage R) (temperature R)"
    by (rule generate_cell_data_Inr)
  from c' cfg have [simp]: "cfg' = cfg" by simp
  have known: "cfg = LFP \<or> cfg = NMC \<or> cfg = LTO \<or> cfg = LiCoO2"
    using cfg by (rule known_chemistry)
  have d: "- 0.1 \<le> voltage_draw rnd" "voltage_draw rnd \<le> 0.1"
    "- 5.0 \<le> current_draw rnd" "current_draw rnd \<le> 5.0"
    "- 2 \<le> temp_draw rnd" "temp_draw rnd \<le> 8"
    using rnd by (simp_all add: in_range_def)
  show vb: "nominal_voltage cfg - 0.1 \<le> voltage R" "voltage R \<le> nominal_voltage cfg + 0.1"
    using voltage_band [OF known d(1,2)] v by simp_all
  have ib: "\<bar>current R\<bar> \<le> 5" using current_band [OF d(3,4)] i by simp
  show tb: "23 \<le> temperature R" "temperature R \<le> 35.5"
    using temperature_band [OF ib d(5,6)] tm by simp_all
  show thb: "97.5 \<le> temp_health (temperature R)"
    using temp_health_band [OF tb(2)] by simp
  show vhb: "100 * (1 - 0.1 / 2.4) \<le> voltage_health cfg (voltage R)"
    using voltage_health_band [OF known vb] by simp
  show "96.6 \<le> health R" "health R \<le> 100"
    using overall_health_band [OF voltage_health_band [OF known vb] temp_health_band [OF tb(2)]] h
    by simp_all
qed


lemma generate_example:
  "generate_cell_data ''LFP'' ''Cell_1_LFP'' 0 example_draws = Inr example_reading"
  by code_simp

lemma generate_edge:
  "generate_cell_data ''LTO'' ''Cell_2_LTO'' 0 edge_draws = Inr edge_reading"
  by code_simp



subsection \<open>Status\<close>

text \<open>
  Claim C1. For a reading \<open>R\<close> that \<^verbatim>\<open>generate_cell_data\<close> returns for a chemistry with
  profile \<open>cfg\<close>: the status is "Critical" exactly when the voltage is below the minimum
  or above the maximum of the profile or the temperature is above 45; it is "Warning"
  exactly when that is not so and the temperature is above 40 or the health below 80;
  it is "Good" exactly when neither holds. The theorem holds for every value of the
  draws, also outside their ranges. The Critical test comes first: for LFP (maximum 3.6)
  a voltage of 3.65 is Critical whatever the temperature and the health are.
\<close>

theorem status_classification:
  assumes "map_of CELL_CONFIGS ctype = Some cfg"
    and "generate_cell_data ctype cid t rnd = Inr R"
  shows "(status R = ''Critical'' \<longleftrightarrow>
            voltage R < min_voltage cfg \<or> voltage R > max_voltage cfg \<or> temperature R > 45) \<and>
         (status R = ''Warning'' \<longleftrightarrow>
            \<not> (voltage R < min_voltage cfg \<or> voltage R > max_voltage cfg \<or> temperature R > 45) \<and>
            (temperature R > 40 \<or> health R < 80)) \<and>
         (status R = ''Good'' \<longleftrightarrow>
            \<not> (voltage R < min_voltage cfg \<or> voltage R > max_voltage cfg \<or> temperature R > 45) \<and>
            \<not> (temperature R > 40 \<or> health R < 80)) \<and>
         (\<forall>temp h. status_determination LFP 3.65 temp h = ''Critical'')"
proof -
  from assms(2) obtain cfg' where "map_of CELL_CONFIGS ctype = Some cfg'"
    and "status R = status_determination cfg' (voltage R) (temperature R) (health R)"
    by (rule generate_cell_data_Inr)
  with assms(1) have "status R = status_determination cfg (voltage R) (temperature R) (health R)"
    by simp
  then show ?thesis
    by (simp add: status_determination_def LFP_def)
qed

theorem status_classification_witness:
  "map_of CELL_CONFIGS ''LFP'' = Some LFP \<and>
   generate_cell_data ''LFP'' ''Cell_1_LFP'' 0 example_draws = Inr example_reading \<and>
   status example_reading = ''Good'' \<and>
   \<not> temperature example_reading > 40 \<and> \<not> health example_reading < 80"
  using status_classification [of "''LFP''" LFP "''Cell_1_LFP''" 0 example_draws example_reading]
  by (simp add: map_of_CELL_CONFIGS generate_example) (simp add: example_reading_def)

subsection \<open>Health\<close>



subsection \<open>Voltage\<close>

text \<open>
  Claim C3. For each of the four chemistries and every draw of the voltage variation in
  \<open>[-0.1, 0.1]\<close>, the voltage of the reading, which is the nominal voltage plus the draw
  rounded to 3 decimals, lies in \<open>[nominal - 0.1, nominal + 0.1]\<close>.
\<close>

theorem voltage_within_band:
  assumes "map_of CELL_CONFIGS ctype = Some cfg"
    and "generate_cell_data ctype cid t rnd = Inr R"
    and "- 0.1 \<le> voltage_draw rnd" and "voltage_draw rnd \<le> 0.1"
  shows "nominal_voltage cfg - 0.1 \<le> voltage R \<and> voltage R \<le> nominal_voltage cfg + 0.1"
proof -
  from assms(2) obtain cfg' where "map_of CELL_CONFIGS ctype = Some cfg'"
    and "voltage R = py_round_computed (voltage_up rnd) (nominal_voltage cfg' + voltage_draw rnd) 3"
    by (rule generate_cell_data_Inr)
  with assms(1) have v: "voltage R = py_round_computed (voltage_up rnd) (nominal_voltage cfg + voltage_draw rnd) 3"
    by simp
  show ?thesis
    using voltage_band [OF known_chemistry [OF assms(1)] assms(3,4)] v by simp
qed

theorem voltage_within_band_witness:
  "map_of CELL_CONFIGS ''LTO'' = Some LTO \<and>
   generate_cell_data ''LTO'' ''Cell_2_LTO'' 0 edge_draws = Inr edge_reading \<and>
   - 0.1 \<le> voltage_draw edge_draws \<and> voltage_draw edge_draws \<le> 0.1 \<and>
   nominal_voltage LTO - 0.1 \<le> voltage edge_reading \<and>
   voltage edge_reading \<le> nominal_voltage LTO + 0.1 \<and> voltage edge_reading = 2.5"
proof -
  have c: "map_of CELL_CONFIGS ''LTO'' = Some LTO" by (simp add: map_of_CELL_CONFIGS)
  have d: "- 0.1 \<le> voltage_draw edge_draws" "voltage_draw edge_draws \<le> 0.1"
    by (simp_all add: edge_draws_def)
  from voltage_within_band [OF c generate_edge d] c d show ?thesis
    by (simp add: generate_edge) (simp add: edge_reading_def)
qed

subsection \<open>Unknown chemistry\<close>

text \<open>
  Claim C5. \<^verbatim>\<open>generate_cell_data\<close> raises (\<^verbatim>\<open>KeyError\<close>, from the lookup in
  \<^verbatim>\<open>CELL_CONFIGS\<close>) exactly when the chemistry is none of LFP, NMC, LTO and LiCoO2; for
  each of the four it returns a reading of that chemistry. No chemistry is replaced by
  a default.
\<close>

theorem unknown_chemistry_rejected:
  "(generate_cell_data ctype cid t rnd = Inl (KeyError ctype) \<longleftrightarrow>
      ctype \<notin> {''LFP'', ''NMC'', ''LTO'', ''LiCoO2''}) \<and>
   ((\<exists>e. generate_cell_data ctype cid t rnd = Inl e) \<longleftrightarrow>
      ctype \<notin> {''LFP'', ''NMC'', ''LTO'', ''LiCoO2''}) \<and>
   ((\<exists>R. generate_cell_data ctype cid t rnd = Inr R \<and> cell_type R = ctype) \<longleftrightarrow>
      ctype \<in> {''LFP'', ''NMC'', ''LTO'', ''LiCoO2''})"
  by (simp add: generate_cell_data_def map_of_CELL_CONFIGS Let_def)

theorem unknown_chemistry_rejected_witness:
  "generate_cell_data ''NiMH'' ''Cell_1_NiMH'' 0 example_draws = Inl (KeyError ''NiMH'') \<and>
   (\<exists>R. generate_cell_data ''LiCoO2'' ''Cell_1_LiCoO2'' 0 example_draws = Inr R \<and>
        cell_type R = ''LiCoO2'')"
  using unknown_chemistry_rejected [of "''NiMH''" "''Cell_1_NiMH''" 0 example_draws]
    unknown_chemistry_rejected [of "''LiCoO2''" "''Cell_1_LiCoO2''" 0 example_draws]
  by simp

subsection \<open>What the generator can produce\<close>

text \<open>
  Claim C8. For each of the four chemistries and all draws within their ranges, the
  reading has status "Good": its temperature is at most 35.5, its voltage lies between
  the minimum and the maximum of the profile, and its health is at least 80.
\<close>

theorem generated_status_good:
  assumes "map_of CELL_CONFIGS ctype = Some cfg"
    and "generate_cell_data ctype cid t rnd = Inr R"
    and "in_range rnd"
  shows "status R = ''Good'' \<and> temperature R \<le> 35.5 \<and>
         min_voltage cfg \<le> voltage R \<and> voltage R \<le> max_voltage cfg \<and> 80 \<le> health R"
proof -
  note b = generated_bands [OF assms]
  have w: "min_voltage cfg \<le> nominal_voltage cfg - 0.1" "nominal_voltage cfg + 0.1 \<le> max_voltage cfg"
    using known_chemistry [OF assms(1)] by (auto simp: LFP_def NMC_def LTO_def LiCoO2_def)
  from assms(2) obtain cfg' where "map_of CELL_CONFIGS ctype = Some cfg'"
    and "status R = status_determination cfg' (voltage R) (temperature R) (health R)"
    by (rule generate_cell_data_Inr)
  with assms(1) have s: "status R = status_determination cfg (voltage R) (temperature R) (health R)"
    by simp
  have v: "min_voltage cfg \<le> voltage R" "voltage R \<le> max_voltage cfg"
    using b(1,2) w by linarith+
  have h: "80 \<le> health R" using b(7) by linarith
  have tm: "temperature R \<le> 35.5" by (rule b(4))
  have "status R = ''Good''"
    using s v h tm by (simp add: status_determination_def)
  with v h tm show ?thesis by simp
qed

theorem generated_status_good_witness:
  "map_of CELL_CONFIGS ''LTO'' = Some LTO \<and>
   generate_cell_data ''LTO'' ''Cell_2_LTO'' 0 edge_draws = Inr edge_reading \<and>
   in_range edge_draws \<and> status edge_reading = ''Good'' \<and> temperature edge_reading = 35.5"
proof -
  have c: "map_of CELL_CONFIGS ''LTO'' = Some LTO" by (simp add: map_of_CELL_CONFIGS)
  have r: "in_range edge_draws" by (simp add: in_range_def edge_draws_def)
  from generated_status_good [OF c generate_edge r] c r show ?thesis
    by (simp add: generate_edge) (simp add: edge_reading_def)
qed

text \<open>
  Claim C9. For each of the four chemistries and all draws within their ranges, the
  health of the reading is above 95 and at most 100; the temperature health is at
  least 97.5 and the voltage health at least \<open>100 * (1 - 0.1 / 2.4)\<close>.
\<close>

theorem generated_health_bounds:
  assumes "map_of CELL_CONFIGS ctype = Some cfg"
    and "generate_cell_data ctype cid t rnd = Inr R"
    and "in_range rnd"
  shows "95 < health R \<and> health R \<le> 100 \<and>
         97.5 \<le> temp_health (temperature R) \<and>
         100 * (1 - 0.1 / 2.4) \<le> voltage_health cfg (voltage R)"
proof -
  note b = generated_bands [OF assms]
  have "95 < health R" using b(7) by linarith
  with b(5,6,8) show ?thesis by simp
qed

theorem generated_health_bounds_witness:
  "map_of CELL_CONFIGS ''LTO'' = Some LTO \<and>
   generate_cell_data ''LTO'' ''Cell_2_LTO'' 0 edge_draws = Inr edge_reading \<and>
   in_range edge_draws \<and> 95 < health edge_reading \<and> health edge_reading \<le> 100 \<and>
   health edge_reading = 96.7"
proof -
  have c: "map_of CELL_CONFIGS ''LTO'' = Some LTO" by (simp add: map_of_CELL_CONFIGS)
  have r: "in_range edge_draws" by (simp add: in_range_def edge_draws_def)
  from generated_health_bounds [OF c generate_edge r] c r show ?thesis
    by (simp add: generate_edge) (simp add: edge_reading_def)
qed

section \<open>The session state: properties\<close>

subsection \<open>The history list\<close>

lemma store_historical_eq:
  "store_historical hist snap = drop (length (hist @ [snap]) - 100) (hist @ [snap])"
  by (simp add: store_historical_def Let_def)

lemma foldl_store_historical:
  "foldl store_historical [] snaps = drop (length snaps - 100) snaps"
proof (induction snaps rule: rev_induct)
  case Nil
  show ?case by simp
next
  case (snoc x xs)
  have "foldl store_historical [] (xs @ [x]) = store_historical (drop (length xs - 100) xs) x"
    using snoc.IH by simp
  also have "\<dots> = drop (length (xs @ [x]) - 100) (xs @ [x])"
  proof (cases "length xs \<le> 100")
    case True
    then show ?thesis by (simp add: store_historical_eq)
  next
    case False
    then have "length xs - (length xs - 100 + 99) + (length xs - 100) = length xs - 99"
      by arith
    with False show ?thesis by (simp add: store_historical_eq)
  qed
  finally show ?case .
qed

lemma set_store_historical: "set (store_historical hist snap) \<subseteq> insert snap (set hist)"
  by (auto simp: store_historical_eq dest: in_set_dropD)

subsection \<open>What the loops leave unchanged\<close>

lemma setitem_simps [simp]:
  "next_addr (setitem a k r s) = next_addr s"
  "cells_data (setitem a k r s) = cells_data s"
  "historical_data (setitem a k r s) = historical_data s"
  "is_monitoring (setitem a k r s) = is_monitoring s"
  "b \<noteq> a \<Longrightarrow> heap (setitem a k r s) b = heap s b"
  "heap (setitem a k r s) a = AList.update k r (heap s a)"
  by (simp_all add: setitem_def)

lemma initialize_loop_frame:
  "initialize_loop t g i cts s = Inr s' \<Longrightarrow>
     next_addr s' = next_addr s \<and> cells_data s' = cells_data s \<and>
     historical_data s' = historical_data s \<and> is_monitoring s' = is_monitoring s \<and>
     (\<forall>a. a \<noteq> cells_data s \<longrightarrow> heap s' a = heap s a)"
proof (induction cts arbitrary: i s)
  case Nil
  then show ?case by simp
next
  case (Cons ctype rest)
  let ?cid = "''Cell_'' @ str_nat (i + 1) @ ''_'' @ ctype"
  from Cons.prems obtain r where
    "initialize_loop t g (i + 1) rest (setitem (cells_data s) ?cid r s) = Inr s'"
    by (auto simp: Let_def split: sum.splits)
  from Cons.IH [OF this] show ?case by simp
qed

lemma update_loop_frame:
  "update_loop t g i cids s = Inr s' \<Longrightarrow>
     next_addr s' = next_addr s \<and> cells_data s' = cells_data s \<and>
     historical_data s' = historical_data s \<and> is_monitoring s' = is_monitoring s \<and>
     (\<forall>a. a \<noteq> cells_data s \<longrightarrow> heap s' a = heap s a) \<and>
     map fst (heap s' (cells_data s)) = map fst (heap s (cells_data s))"
proof (induction cids arbitrary: i s)
  case Nil
  then show ?case by simp
next
  case (Cons cid rest)
  from Cons.prems obtain r r' where r: "map_of (heap s (cells_data s)) cid = Some r"
    and "update_loop t g (i + 1) rest (setitem (cells_data s) cid r' s) = Inr s'"
    by (auto split: option.splits sum.splits)
  from Cons.IH [OF this(2)] have ih:
    "next_addr s' = next_addr s" "cells_data s' = cells_data s"
    "historical_data s' = historical_data s" "is_monitoring s' = is_monitoring s"
    "\<forall>a. a \<noteq> cells_data s \<longrightarrow> heap s' a = heap s a"
    "map fst (heap s' (cells_data s)) = map fst (AList.update cid r' (heap s (cells_data s)))"
    by simp_all
  have "cid \<in> set (map fst (heap s (cells_data s)))"
    using r by (metis map_of_eq_None_iff option.distinct(1) set_map)
  then have "map fst (AList.update cid r' (heap s (cells_data s))) = map fst (heap s (cells_data s))"
    by (simp add: AList.update_keys)
  with ih show ?case by simp
qed

subsection \<open>The monitoring update\<close>

lemma monitoring_update_off: "\<not> is_monitoring s \<Longrightarrow> monitoring_update t g s = Inr s"
  by (simp add: monitoring_update_def)

lemma monitoring_update_on:
  assumes "is_monitoring s" and "monitoring_update t g s = Inr s'"
  obtains s1 where "update_loop t g 0 (map fst (heap s (cells_data s))) s = Inr s1"
    and "s' = s1\<lparr>heap := (heap s1)(next_addr s1 := heap s1 (cells_data s1)),
                 next_addr := Suc (next_addr s1),
                 historical_data := store_historical (historical_data s1)
                    \<lparr>snap_timestamp = t, snap_data = next_addr s1\<rparr>\<rparr>"
  using assms by (auto simp: monitoring_update_def new_dict_def split: sum.splits)

lemma monitoring_update_keys:
  assumes "monitoring_update t g s = Inr s'"
  shows "cells_data s' = cells_data s"
    and "map fst (heap s' (cells_data s')) = map fst (heap s (cells_data s))"
proof -
  have k: "cells_data s' = cells_data s \<and>
        map fst (heap s' (cells_data s)) = map fst (heap s (cells_data s))"
  proof (cases "is_monitoring s")
    case False
    with assms show ?thesis by (simp add: monitoring_update_off)
  next
    case True
    from True assms obtain s1 where u: "update_loop t g 0 (map fst (heap s (cells_data s))) s = Inr s1"
      and s': "s' = s1\<lparr>heap := (heap s1)(next_addr s1 := heap s1 (cells_data s1)),
                 next_addr := Suc (next_addr s1),
                 historical_data := store_historical (historical_data s1)
                    \<lparr>snap_timestamp = t, snap_data = next_addr s1\<rparr>\<rparr>"
      by (rule monitoring_update_on)
    from update_loop_frame [OF u] s' show ?thesis by simp
  qed
  from k show c: "cells_data s' = cells_data s" by simp
  from k show "map fst (heap s' (cells_data s')) = map fst (heap s (cells_data s))"
    unfolding c by simp
qed

lemma monitoring_update_running:
  assumes "is_monitoring s" and "monitoring_update t g s = Inr s'"
  shows "is_monitoring s'" and "next_addr s' = Suc (next_addr s)"
proof -
  from assms obtain s1 where u: "update_loop t g 0 (map fst (heap s (cells_data s))) s = Inr s1"
    and s': "s' = s1\<lparr>heap := (heap s1)(next_addr s1 := heap s1 (cells_data s1)),
               next_addr := Suc (next_addr s1),
               historical_data := store_historical (historical_data s1)
                  \<lparr>snap_timestamp = t, snap_data = next_addr s1\<rparr>\<rparr>"
    by (rule monitoring_update_on)
  from update_loop_frame [OF u] s' assms(1)
  show "is_monitoring s'" and "next_addr s' = Suc (next_addr s)" by simp_all
qed

text \<open>
  The update appends one snapshot: it has the time of the update and refers to a new
  dictionary, which has the content of the current one.
\<close>

lemma monitoring_update_snapshot:
  assumes "is_monitoring s" and "monitoring_update t g s = Inr s'"
  shows "historical_data s' =
           store_historical (historical_data s) \<lparr>snap_timestamp = t, snap_data = next_addr s\<rparr>"
    and "heap s' (next_addr s) = heap s' (cells_data s')"
    and "last (historical_data s') = \<lparr>snap_timestamp = t, snap_data = next_addr s\<rparr>"
proof -
  from assms obtain s1 where u: "update_loop t g 0 (map fst (heap s (cells_data s))) s = Inr s1"
    and s': "s' = s1\<lparr>heap := (heap s1)(next_addr s1 := heap s1 (cells_data s1)),
               next_addr := Suc (next_addr s1),
               historical_data := store_historical (historical_data s1)
                  \<lparr>snap_timestamp = t, snap_data = next_addr s1\<rparr>\<rparr>"
    by (rule monitoring_update_on)
  note f = update_loop_frame [OF u]
  show h: "historical_data s' =
           store_historical (historical_data s) \<lparr>snap_timestamp = t, snap_data = next_addr s\<rparr>"
    using f s' by simp
  show "heap s' (next_addr s) = heap s' (cells_data s')"
    using f s' by simp
  show "last (historical_data s') = \<lparr>snap_timestamp = t, snap_data = next_addr s\<rparr>"
    unfolding h by (simp add: store_historical_eq)
qed

subsection \<open>Runs do not raise on known cell types\<close>

lemma generate_cell_data_known:
  assumes "map_of CELL_CONFIGS ctype \<noteq> None"
  obtains r where "generate_cell_data ctype cid t rnd = Inr r" and "cell_type r = ctype"
  using assms by (auto simp: generate_cell_data_def Let_def)

lemma valid_cells_update:
  "valid_cells d \<Longrightarrow> map_of CELL_CONFIGS (cell_type r) \<noteq> None \<Longrightarrow> valid_cells (AList.update k r d)"
  by (induction d) (auto simp: valid_cells_def)

lemma valid_cells_lookup:
  "valid_cells d \<Longrightarrow> map_of d k = Some r \<Longrightarrow> map_of CELL_CONFIGS (cell_type r) \<noteq> None"
  by (auto simp: valid_cells_def list_all_iff dest!: map_of_SomeD)

lemma update_loop_total:
  assumes "valid_cells (heap s (cells_data s))"
    and "set cids \<subseteq> set (map fst (heap s (cells_data s)))"
  shows "\<exists>s'. update_loop t g i cids s = Inr s' \<and> valid_cells (heap s' (cells_data s'))"
  using assms
proof (induction cids arbitrary: i s)
  case Nil
  then show ?case by simp
next
  case (Cons cid rest)
  from Cons.prems(2) obtain r where r: "map_of (heap s (cells_data s)) cid = Some r"
    by (cases "map_of (heap s (cells_data s)) cid") (auto simp: map_of_eq_None_iff)
  from valid_cells_lookup [OF Cons.prems(1) r] obtain r' where
    g: "generate_cell_data (cell_type r) cid t (g i) = Inr r'" and ct: "cell_type r' = cell_type r"
    by (rule generate_cell_data_known)
  let ?s1 = "setitem (cells_data s) cid r' s"
  have v: "valid_cells (heap ?s1 (cells_data ?s1))"
    using Cons.prems(1) valid_cells_lookup [OF Cons.prems(1) r] ct
    by (simp add: valid_cells_update del: AList.update.simps)
  have k: "set rest \<subseteq> set (map fst (heap ?s1 (cells_data ?s1)))"
    using Cons.prems(2) by (auto simp: AList.update_keys simp del: AList.update.simps)
  from Cons.IH [OF v k] show ?case using r g by simp
qed

lemma monitoring_update_total:
  assumes "valid_cells (heap s (cells_data s))"
  shows "\<exists>s'. monitoring_update t g s = Inr s' \<and> valid_cells (heap s' (cells_data s'))"
proof (cases "is_monitoring s")
  case False
  with assms show ?thesis by (simp add: monitoring_update_off)
next
  case True
  from update_loop_total [OF assms order_refl] obtain s1 where
    u: "update_loop t g 0 (map fst (heap s (cells_data s))) s = Inr s1"
    and v: "valid_cells (heap s1 (cells_data s1))" by blast
  then show ?thesis using True
    by (simp add: monitoring_update_def new_dict_def)
qed

lemma initialize_loop_total:
  assumes "list_all (\<lambda>c. map_of CELL_CONFIGS c \<noteq> None) ctypes"
    and "valid_cells (heap s (cells_data s))"
  shows "\<exists>s'. initialize_loop t g i ctypes s = Inr s' \<and> valid_cells (heap s' (cells_data s'))"
  using assms
proof (induction ctypes arbitrary: i s)
  case Nil
  then show ?case by simp
next
  case (Cons ctype rest)
  let ?cid = "''Cell_'' @ str_nat (i + 1) @ ''_'' @ ctype"
  from Cons.prems(1) have k: "map_of CELL_CONFIGS ctype \<noteq> None"
    and r: "list_all (\<lambda>c. map_of CELL_CONFIGS c \<noteq> None) rest" by simp_all
  from k obtain rd where g: "generate_cell_data ctype ?cid t (g i) = Inr rd"
    and ct: "cell_type rd = ctype" by (rule generate_cell_data_known)
  let ?s1 = "setitem (cells_data s) ?cid rd s"
  have v: "valid_cells (heap ?s1 (cells_data ?s1))"
    using Cons.prems(2) k ct by (simp add: valid_cells_update del: AList.update.simps)
  from Cons.IH [OF r v] show ?case using g by (simp add: Let_def)
qed

lemma main_content_total:
  assumes "valid_cells (heap s (cells_data s))"
  shows "\<exists>v s'. main_content t g s = Inr (v, s') \<and> valid_cells (heap s' (cells_data s'))"
proof (cases "heap s (cells_data s) = []")
  case True
  then have "main_content t g s = Inr (Placeholder, s)" by (simp add: main_content_def)
  with assms show ?thesis by blast
next
  case False
  from monitoring_update_total [OF assms] obtain s' where
    "monitoring_update t g s = Inr s'" "valid_cells (heap s' (cells_data s'))" by blast
  with False show ?thesis by (simp add: main_content_def)
qed

lemma sidebar_total:
  assumes "valid_cells (heap s (cells_data s))"
    and "initialize_cells inp \<longrightarrow> known_types inp"
  shows "\<exists>s'. sidebar inp s = Inr s' \<and> valid_cells (heap s' (cells_data s'))"
proof (cases "initialize_cells inp")
  case False
  with assms(1) show ?thesis by (simp add: sidebar_def Let_def)
next
  case True
  let ?s1 = "s\<lparr>heap := (heap s)(next_addr s := []), next_addr := Suc (next_addr s),
               cells_data := next_addr s\<rparr>"
  have v: "valid_cells (heap ?s1 (cells_data ?s1))" by (simp add: valid_cells_def)
  have k: "list_all (\<lambda>c. map_of CELL_CONFIGS c \<noteq> None) (cell_types inp)"
    using True assms(2) by (simp add: known_types_def)
  from initialize_loop_total [OF k v] obtain s2 where
    "initialize_loop (init_time inp) (rng inp) 0 (cell_types inp) ?s1 = Inr s2"
    "valid_cells (heap s2 (cells_data s2))"
    by blast
  with True show ?thesis by (simp add: sidebar_def new_dict_def Let_def)
qed

text \<open>
  With the values that the select boxes can have, no run of the script raises, from the
  initial state on.
\<close>

lemma script_run_total:
  assumes "valid_cells (heap s (cells_data s))"
    and "initialize_cells inp \<longrightarrow> known_types inp"
  shows "\<exists>v s'. script_run inp s = Inr (v, s') \<and> valid_cells (heap s' (cells_data s'))"
proof -
  from sidebar_total [OF assms] obtain s1 where s1: "sidebar inp s = Inr s1"
    and v: "valid_cells (heap s1 (cells_data s1))" by blast
  show ?thesis
  proof (cases "auto_refresh inp \<and> is_monitoring s1")
    case True
    with s1 v show ?thesis by (simp add: script_run_def)
  next
    case False
    from main_content_total [OF v] obtain w s' where
      "main_content (tick_time inp)
         (\<lambda>i. rng inp (i + (if initialize_cells inp then length (cell_types inp) else 0))) s1
       = Inr (w, s')" "valid_cells (heap s' (cells_data s'))" by blast
    with s1 False show ?thesis by (auto simp: script_run_def)
  qed
qed

lemma session_runs_total:
  assumes "valid_cells (heap s (cells_data s))"
    and "list_all (\<lambda>inp. initialize_cells inp \<longrightarrow> known_types inp) inps"
  shows "\<exists>s'. session_runs inps s = Inr s' \<and> valid_cells (heap s' (cells_data s'))"
  using assms
proof (induction inps arbitrary: s)
  case Nil
  then show ?case by simp
next
  case (Cons inp inps)
  from Cons.prems have "initialize_cells inp \<longrightarrow> known_types inp" by simp
  from script_run_total [OF Cons.prems(1) this] obtain v s1 where
    "script_run inp s = Inr (v, s1)" and "valid_cells (heap s1 (cells_data s1))" by blast
  with Cons.IH [of s1] Cons.prems(2) show ?case by simp
qed

subsection \<open>Refreshing the page while monitoring\<close>

lemma is_monitoring_True_id: "is_monitoring s \<Longrightarrow> s\<lparr>is_monitoring := True\<rparr> = s"
  by (cases s) simp

lemma is_monitoring_False_id: "\<not> is_monitoring s \<Longrightarrow> s\<lparr>is_monitoring := False\<rparr> = s"
  by (cases s) simp

lemma script_run_plain:
  assumes "is_monitoring s" and "heap s (cells_data s) \<noteq> []" and "plain_refresh inp"
  shows "script_run inp s =
           (case monitoring_update (tick_time inp) (rng inp) s of
              Inl e \<Rightarrow> Inl e
            | Inr s' \<Rightarrow> Inr (Overview (summary_metrics (heap s' (cells_data s'))), s'))"
proof -
  have "sidebar inp s = Inr s"
    using assms(1,3) by (auto simp: sidebar_def plain_refresh_def Let_def is_monitoring_True_id)
  then show ?thesis
    using assms by (simp add: script_run_def main_content_def plain_refresh_def)
qed

lemma session_runs_plain_history:
  assumes "is_monitoring s" and "heap s (cells_data s) \<noteq> []"
    and "list_all plain_refresh inps" and "session_runs inps s = Inr s'"
  shows "historical_data s' =
           foldl store_historical (historical_data s)
             (map (\<lambda>i. \<lparr>snap_timestamp = tick_time (inps ! i), snap_data = next_addr s + i\<rparr>)
                [0..<length inps])"
  using assms
proof (induction inps arbitrary: s)
  case Nil
  then show ?case by simp
next
  case (Cons inp inps)
  from Cons.prems(4) obtain v s1 where r: "script_run inp s = Inr (v, s1)"
    and rest: "session_runs inps s1 = Inr s'"
    by (auto split: sum.splits)
  from r Cons.prems have u: "monitoring_update (tick_time inp) (rng inp) s = Inr s1"
    by (auto simp: script_run_plain split: sum.splits)
  note sn = monitoring_update_snapshot [OF Cons.prems(1) u]
  have m: "is_monitoring s1" and n: "next_addr s1 = Suc (next_addr s)"
    using monitoring_update_running [OF Cons.prems(1) u] by simp_all
  have ne: "heap s1 (cells_data s1) \<noteq> []"
    using monitoring_update_keys(2) [OF u] Cons.prems(2) by (metis map_is_Nil_conv)
  from Cons.prems(3) have pl: "list_all plain_refresh inps" by simp
  have "historical_data s' =
           foldl store_historical (historical_data s1)
             (map (\<lambda>i. \<lparr>snap_timestamp = tick_time (inps ! i), snap_data = next_addr s1 + i\<rparr>)
                [0..<length inps])"
    using m ne pl rest by (rule Cons.IH)
  then show ?case
    by (simp add: sn(1) n map_upt_Suc del: upt_Suc)
qed

lemma session_runs_plain_total:
  assumes "is_monitoring s" and "heap s (cells_data s) \<noteq> []"
    and "valid_cells (heap s (cells_data s))" and "list_all plain_refresh inps"
  shows "\<exists>s'. session_runs inps s = Inr s'"
proof -
  have "list_all (\<lambda>inp. initialize_cells inp \<longrightarrow> known_types inp) inps"
    using assms(4) by (simp add: list_all_iff plain_refresh_def)
  from session_runs_total [OF assms(3) this] show ?thesis by blast
qed

text \<open>
  Claim C4. Start with an empty history, monitoring on and at least one cell, and let
  the script run 150 times so that each run reaches the monitoring update (a refresh of
  the page). Each run appends one snapshot: run \<open>i\<close> (from 0) appends the snapshot with
  the time of that run that refers to the \<open>i\<close>-th new dictionary. After the 150 runs the
  history has exactly 100 entries: the snapshots of runs 50 to 149, in the order in
  which they were appended.
\<close>

theorem history_keeps_last_100:
  assumes "historical_data s = []" and "is_monitoring s" and "heap s (cells_data s) \<noteq> []"
    and "length inps = 150" and "list_all plain_refresh inps"
    and "session_runs inps s = Inr s'"
  shows "length (historical_data s') = 100 \<and>
         historical_data s' =
           map (\<lambda>i. \<lparr>snap_timestamp = tick_time (inps ! i), snap_data = next_addr s + i\<rparr>)
             [50..<150]"
proof -
  let ?snaps = "map (\<lambda>i. \<lparr>snap_timestamp = tick_time (inps ! i), snap_data = next_addr s + i\<rparr>)
                  [0..<length inps]"
  have "historical_data s' = foldl store_historical [] ?snaps"
    using session_runs_plain_history [OF assms(2,3,5,6)] assms(1) by simp
  also have "\<dots> = drop (length ?snaps - 100) ?snaps" by (rule foldl_store_historical)
  also have "\<dots> = map (\<lambda>i. \<lparr>snap_timestamp = tick_time (inps ! i), snap_data = next_addr s + i\<rparr>)
             [50..<150]"
    using assms(4) by (simp add: drop_map)
  finally show ?thesis by simp
qed

theorem history_keeps_last_100_witness:
  "\<exists>s'. historical_data monitoring_session = [] \<and> is_monitoring monitoring_session \<and>
        heap monitoring_session (cells_data monitoring_session) \<noteq> [] \<and>
        length (map refresh_at [0..<150]) = 150 \<and>
        list_all plain_refresh (map refresh_at [0..<150]) \<and>
        session_runs (map refresh_at [0..<150]) monitoring_session = Inr s' \<and>
        length (historical_data s') = 100 \<and>
        hd (historical_data s') = \<lparr>snap_timestamp = 50, snap_data = 51\<rparr> \<and>
        last (historical_data s') = \<lparr>snap_timestamp = 149, snap_data = 150\<rparr>"
proof -
  have 1: "historical_data monitoring_session = []" "is_monitoring monitoring_session"
    "heap monitoring_session (cells_data monitoring_session) \<noteq> []"
    by (simp_all add: monitoring_session_def)
  have 2: "length (map refresh_at [0..<150]) = 150" by simp
  have 3: "list_all plain_refresh (map refresh_at [0..<150])"
    by (simp add: list_all_iff plain_refresh_def refresh_at_def)
  have "valid_cells (heap monitoring_session (cells_data monitoring_session))"
    by (simp add: monitoring_session_def valid_cells_def example_reading_def map_of_CELL_CONFIGS)
  from session_runs_plain_total [OF 1(2,3) this 3] obtain s' where
    4: "session_runs (map refresh_at [0..<150]) monitoring_session = Inr s'" ..
  from history_keeps_last_100 [OF 1 2 3 4] have
    h: "historical_data s' =
           map (\<lambda>i. \<lparr>snap_timestamp = tick_time (map refresh_at [0..<150] ! i),
                      snap_data = next_addr monitoring_session + i\<rparr>) [50..<150]"
    and l: "length (historical_data s') = 100" by simp_all
  have "hd (historical_data s') = \<lparr>snap_timestamp = 50, snap_data = 51\<rparr>"
    unfolding h by (simp add: hd_map upt_conv_Cons refresh_at_def monitoring_session_def del: upt_Suc)
  moreover have "last (historical_data s') = \<lparr>snap_timestamp = 149, snap_data = 150\<rparr>"
    unfolding h by (simp add: last_map refresh_at_def monitoring_session_def)
  ultimately show ?thesis using 1 2 3 4 l by blast
qed

subsection \<open>The main content area\<close>







subsection \<open>Monitoring off\<close>

lemma main_content_off:
  assumes "\<not> is_monitoring s"
  shows "\<exists>v. main_content t g s = Inr (v, s)"
  using assms by (simp add: main_content_def monitoring_update_off)

lemma script_run_off:
  assumes "\<not> initialize_cells inp"
    and "stop_monitoring inp \<or> \<not> start_monitoring inp \<and> \<not> is_monitoring s"
  shows "\<exists>v. script_run inp s = Inr (v, s\<lparr>is_monitoring := False\<rparr>)"
proof -
  have "sidebar inp s = Inr (s\<lparr>is_monitoring := False\<rparr>)"
    using assms by (auto simp: sidebar_def Let_def is_monitoring_False_id)
  moreover have "\<exists>v. main_content t' g' (s\<lparr>is_monitoring := False\<rparr>) = Inr (v, s\<lparr>is_monitoring := False\<rparr>)"
    for t' g' by (rule main_content_off) simp
  ultimately show ?thesis
    by (simp add: script_run_def)
qed

lemma session_runs_off:
  "\<not> is_monitoring s \<Longrightarrow>
   list_all (\<lambda>inp. \<not> initialize_cells inp \<and> \<not> start_monitoring inp) inps \<Longrightarrow>
   session_runs inps s = Inr s"
proof (induction inps)
  case Nil
  show ?case by simp
next
  case (Cons inp inps)
  from Cons.prems have "\<exists>v. script_run inp s = Inr (v, s\<lparr>is_monitoring := False\<rparr>)"
    by (intro script_run_off) simp_all
  then obtain v where "script_run inp s = Inr (v, s)"
    using Cons.prems(1) by (auto simp: is_monitoring_False_id)
  with Cons show ?case by simp
qed

text \<open>
  Claim C10. With the monitoring flag off, the monitoring update and the main content
  area return the state as it is: no reading is regenerated and no snapshot appended.
  So does a whole run of the script that starts with the flag off, unless one of the
  buttons "Initialize Cells" (which makes a new dictionary of readings whatever the flag
  is) and "Start Monitoring" is pressed in it. A run in which "Stop Monitoring" is
  pressed (and "Initialize Cells" is not) ends with the flag off and with the dictionary
  of readings, the store and the history as they were; after it, any number of runs in
  which neither "Initialize Cells" nor "Start Monitoring" is pressed leave the whole
  state as it is.
\<close>

theorem stopped_monitoring_frozen:
  "(\<not> is_monitoring s \<longrightarrow>
      monitoring_update t g s = Inr s \<and> (\<exists>v. main_content t g s = Inr (v, s))) \<and>
   (\<not> is_monitoring s \<and> \<not> initialize_cells inp \<and> \<not> start_monitoring inp \<longrightarrow>
      (\<exists>v. script_run inp s = Inr (v, s))) \<and>
   (\<not> initialize_cells inp \<and> stop_monitoring inp \<longrightarrow>
      (\<exists>v s'. script_run inp s = Inr (v, s') \<and> \<not> is_monitoring s' \<and>
         cells_data s' = cells_data s \<and> heap s' = heap s \<and>
         historical_data s' = historical_data s \<and>
         (list_all (\<lambda>inp. \<not> initialize_cells inp \<and> \<not> start_monitoring inp) inps \<longrightarrow>
            session_runs inps s' = Inr s')))"
proof (intro conjI impI)
  assume "\<not> is_monitoring s"
  then show "monitoring_update t g s = Inr s" by (rule monitoring_update_off)
next
  assume "\<not> is_monitoring s"
  then show "\<exists>v. main_content t g s = Inr (v, s)" by (rule main_content_off)
next
  assume a: "\<not> is_monitoring s \<and> \<not> initialize_cells inp \<and> \<not> start_monitoring inp"
  then have "\<exists>v. script_run inp s = Inr (v, s\<lparr>is_monitoring := False\<rparr>)"
    by (intro script_run_off) simp_all
  with a show "\<exists>v. script_run inp s = Inr (v, s)" by (simp add: is_monitoring_False_id)
next
  assume a: "\<not> initialize_cells inp \<and> stop_monitoring inp"
  then obtain v where r: "script_run inp s = Inr (v, s\<lparr>is_monitoring := False\<rparr>)"
    using script_run_off [of inp s] by auto
  have "list_all (\<lambda>inp. \<not> initialize_cells inp \<and> \<not> start_monitoring inp) inps \<longrightarrow>
        session_runs inps (s\<lparr>is_monitoring := False\<rparr>) = Inr (s\<lparr>is_monitoring := False\<rparr>)"
    by (simp add: session_runs_off)
  with r show "\<exists>v s'. script_run inp s = Inr (v, s') \<and> \<not> is_monitoring s' \<and>
         cells_data s' = cells_data s \<and> heap s' = heap s \<and>
         historical_data s' = historical_data s \<and>
         (list_all (\<lambda>inp. \<not> initialize_cells inp \<and> \<not> start_monitoring inp) inps \<longrightarrow>
            session_runs inps s' = Inr s')"
    by (intro exI [of _ v] exI [of _ "s\<lparr>is_monitoring := False\<rparr>"]) simp
qed

theorem stopped_monitoring_frozen_witness:
  "\<not> is_monitoring stopped_session \<and>
   heap stopped_session (cells_data stopped_session) \<noteq> [] \<and>
   monitoring_update 5 (\<lambda>_. other_draws) stopped_session = Inr stopped_session \<and>
   (\<exists>v. script_run rerender stopped_session = Inr (v, stopped_session)) \<and>
   \<not> initialize_cells click_stop \<and> stop_monitoring click_stop \<and>
   list_all (\<lambda>inp. \<not> initialize_cells inp \<and> \<not> start_monitoring inp) [rerender, rerender] \<and>
   (\<exists>v s'. script_run click_stop monitoring_session = Inr (v, s') \<and> \<not> is_monitoring s' \<and>
      heap s' = heap monitoring_session \<and>
      historical_data s' = historical_data monitoring_session \<and>
      session_runs [rerender, rerender] s' = Inr s')"
proof -
  have 1: "\<not> is_monitoring stopped_session"
    "heap stopped_session (cells_data stopped_session) \<noteq> []"
    by (simp_all add: stopped_session_def)
  have 2: "\<not> initialize_cells click_stop \<and> stop_monitoring click_stop"
    by (simp add: click_stop_def)
  have 3: "list_all (\<lambda>inp. \<not> initialize_cells inp \<and> \<not> start_monitoring inp) [rerender, rerender]"
    by (simp add: rerender_def)
  from stopped_monitoring_frozen [where s = stopped_session and t = 5 and g = "\<lambda>_. other_draws"] 1
  have 4: "monitoring_update 5 (\<lambda>_. other_draws) stopped_session = Inr stopped_session"
    by blast
  from stopped_monitoring_frozen [where s = stopped_session and inp = rerender] 1
  have 5: "\<exists>v. script_run rerender stopped_session = Inr (v, stopped_session)"
    by (simp add: rerender_def)
  from stopped_monitoring_frozen
    [where s = monitoring_session and inp = click_stop and inps = "[rerender, rerender]"] 2 3
  have "\<exists>v s'. script_run click_stop monitoring_session = Inr (v, s') \<and> \<not> is_monitoring s' \<and>
      heap s' = heap monitoring_session \<and>
      historical_data s' = historical_data monitoring_session \<and>
      session_runs [rerender, rerender] s' = Inr s'"
    by blast
  with 1 2 3 4 5 show ?thesis by blast
qed

subsection \<open>Snapshots and later runs\<close>

lemma evolves_refl: "cells_data s < next_addr s \<Longrightarrow> evolves s s"
  by (simp add: evolves_def)

lemma evolves_trans:
  assumes 1: "evolves s s1" and 2: "evolves s1 s'"
  shows "evolves s s'"
proof -
  have a: "next_addr s \<le> next_addr s1" "cells_data s1 < next_addr s1"
    "cells_data s1 = cells_data s \<or> next_addr s \<le> cells_data s1"
    "\<And>a. a < next_addr s \<Longrightarrow> a \<noteq> cells_data s \<Longrightarrow> heap s1 a = heap s a"
    "\<And>snap. snap \<in> set (historical_data s1) \<Longrightarrow>
        snap \<in> set (historical_data s) \<or>
        next_addr s \<le> snap_data snap \<and> snap_data snap < next_addr s1 \<and>
        snap_data snap \<noteq> cells_data s1"
    using 1 by (auto simp: evolves_def)
  have b: "next_addr s1 \<le> next_addr s'" "cells_data s' < next_addr s'"
    "cells_data s' = cells_data s1 \<or> next_addr s1 \<le> cells_data s'"
    "\<And>a. a < next_addr s1 \<Longrightarrow> a \<noteq> cells_data s1 \<Longrightarrow> heap s' a = heap s1 a"
    "\<And>snap. snap \<in> set (historical_data s') \<Longrightarrow>
        snap \<in> set (historical_data s1) \<or>
        next_addr s1 \<le> snap_data snap \<and> snap_data snap < next_addr s' \<and>
        snap_data snap \<noteq> cells_data s'"
    using 2 by (auto simp: evolves_def)
  have "next_addr s \<le> next_addr s'" using a(1) b(1) by simp
  moreover have "cells_data s' = cells_data s \<or> next_addr s \<le> cells_data s'"
    using a(1,3) b(3) by auto
  moreover have "heap s' x = heap s x" if "x < next_addr s" "x \<noteq> cells_data s" for x
  proof -
    have "x < next_addr s1" "x \<noteq> cells_data s1" using that a(1,3) by auto
    then have "heap s' x = heap s1 x" by (rule b(4))
    with a(4) [OF that] show ?thesis by simp
  qed
  moreover have "snap \<in> set (historical_data s) \<or>
        next_addr s \<le> snap_data snap \<and> snap_data snap < next_addr s' \<and>
        snap_data snap \<noteq> cells_data s'" if "snap \<in> set (historical_data s')" for snap
    using b(5) [OF that] a(5) [of snap] a(1) b(1,3) by auto
  ultimately show ?thesis using b(2) by (simp add: evolves_def)
qed

lemma evolves_wf: "wf_session s \<Longrightarrow> evolves s s' \<Longrightarrow> wf_session s'"
  unfolding wf_session_def evolves_def by (metis leD less_le_trans)

lemma evolves_snapshot:
  assumes "wf_session s" and "evolves s s'" and "snap \<in> set (historical_data s)"
  shows "heap s' (snap_data snap) = heap s (snap_data snap)"
    and "snap_data snap \<noteq> cells_data s'"
  using assms unfolding wf_session_def evolves_def by (metis leD)+

lemma monitoring_update_evolves:
  assumes "monitoring_update t g s = Inr s'" and "cells_data s < next_addr s"
  shows "evolves s s'"
proof (cases "is_monitoring s")
  case False
  with assms show ?thesis by (simp add: monitoring_update_off evolves_refl)
next
  case True
  from True assms(1) obtain s1 where u: "update_loop t g 0 (map fst (heap s (cells_data s))) s = Inr s1"
    and s': "s' = s1\<lparr>heap := (heap s1)(next_addr s1 := heap s1 (cells_data s1)),
                 next_addr := Suc (next_addr s1),
                 historical_data := store_historical (historical_data s1)
                    \<lparr>snap_timestamp = t, snap_data = next_addr s1\<rparr>\<rparr>"
    by (rule monitoring_update_on)
  note f = update_loop_frame [OF u]
  have "snap \<in> set (historical_data s) \<or>
        next_addr s \<le> snap_data snap \<and> snap_data snap < next_addr s' \<and>
        snap_data snap \<noteq> cells_data s'" if "snap \<in> set (historical_data s')" for snap
  proof -
    from that s' have "snap \<in> insert \<lparr>snap_timestamp = t, snap_data = next_addr s1\<rparr> (set (historical_data s1))"
      using set_store_historical by fastforce
    then show ?thesis using f s' assms(2) by auto
  qed
  then show ?thesis using f s' assms(2) by (auto simp: evolves_def)
qed

lemma main_content_evolves:
  assumes "main_content t g s = Inr (v, s')" and "cells_data s < next_addr s"
  shows "evolves s s'"
proof (cases "heap s (cells_data s) = []")
  case True
  with assms show ?thesis by (simp add: main_content_def evolves_refl)
next
  case False
  with assms(1) have "monitoring_update t g s = Inr s'"
    by (auto simp: main_content_def split: sum.splits)
  then show ?thesis using assms(2) by (rule monitoring_update_evolves)
qed

lemma sidebar_evolves:
  assumes "sidebar inp s = Inr s'" and "cells_data s < next_addr s"
  shows "evolves s s'"
proof (cases "initialize_cells inp")
  case False
  with assms(1) have "s' = s \<or> s' = s\<lparr>is_monitoring := True\<rparr> \<or> s' = s\<lparr>is_monitoring := False\<rparr>"
    by (auto simp: sidebar_def Let_def)
  then show ?thesis using assms(2) by (auto simp: evolves_def)
next
  case True
  let ?s1 = "s\<lparr>heap := (heap s)(next_addr s := []), next_addr := Suc (next_addr s),
               cells_data := next_addr s\<rparr>"
  from True assms(1) obtain s2 where
    l: "initialize_loop (init_time inp) (rng inp) 0 (cell_types inp) ?s1 = Inr s2"
    and "s' = s2 \<or> s' = s2\<lparr>is_monitoring := True\<rparr> \<or> s' = s2\<lparr>is_monitoring := False\<rparr>"
    by (auto simp: sidebar_def new_dict_def Let_def split: sum.splits)
  from initialize_loop_frame [OF l] this(2) show ?thesis
    by (auto simp: evolves_def)
qed

lemma script_run_evolves:
  assumes "script_run inp s = Inr (v, s')" and "cells_data s < next_addr s"
  shows "evolves s s'"
proof -
  from assms(1) obtain s1 where sb: "sidebar inp s = Inr s1"
    and r: "s' = s1 \<or> (\<exists>t g. main_content t g s1 = Inr (v, s'))"
    by (auto simp: script_run_def split: sum.splits if_splits)
  have e1: "evolves s s1" using sb assms(2) by (rule sidebar_evolves)
  then have c: "cells_data s1 < next_addr s1" by (simp add: evolves_def)
  from r have "evolves s1 s'"
    using c by (auto intro: evolves_refl main_content_evolves)
  with e1 show ?thesis by (rule evolves_trans)
qed

lemma session_runs_evolves:
  "session_runs inps s = Inr s' \<Longrightarrow> cells_data s < next_addr s \<Longrightarrow> evolves s s'"
proof (induction inps arbitrary: s)
  case Nil
  then show ?case by (simp add: evolves_refl)
next
  case (Cons inp inps)
  from Cons.prems(1) obtain v s1 where 1: "script_run inp s = Inr (v, s1)"
    and 2: "session_runs inps s1 = Inr s'"
    by (auto split: sum.splits)
  have e: "evolves s s1" using 1 Cons.prems(2) by (rule script_run_evolves)
  then have "cells_data s1 < next_addr s1" by (simp add: evolves_def)
  with 2 have "evolves s1 s'" by (rule Cons.IH)
  with e show ?case by (rule evolves_trans)
qed

lemma wf_initial_session: "wf_session initial_session"
  by (simp add: wf_session_def initial_session_def)

lemma reachable_wf:
  assumes "session_runs inps initial_session = Inr s"
  shows "wf_session s"
proof -
  have "cells_data initial_session < next_addr initial_session"
    by (simp add: initial_session_def)
  with assms have "evolves initial_session s" by (rule session_runs_evolves)
  with wf_initial_session show ?thesis by (rule evolves_wf)
qed

lemma snapshot_run:
  "(case session_runs [click_initialize, click_start] initial_session of
      Inl e \<Rightarrow> False
    | Inr s \<Rightarrow>
        historical_data s = [\<lparr>snap_timestamp = 21, snap_data = 2\<rparr>] \<and>
        (case session_runs [rerender] s of
           Inl e \<Rightarrow> False
         | Inr s' \<Rightarrow>
             is_monitoring s' \<and>
             (case monitoring_update 50 (\<lambda>_. example_draws) s' of
                Inl e \<Rightarrow> False
              | Inr s'' \<Rightarrow>
                  heap s' (cells_data s') \<noteq> heap s 2 \<and> heap s 2 \<noteq> [] \<and>
                  heap s 2 = heap s (cells_data s))))"
  by code_simp

text \<open>
  Claim C7. Let \<open>s\<close> be a state that the session can reach from its initial state, and
  \<open>snap\<close> a snapshot in its history. After any further runs of the script (state \<open>s'\<close>)
  and after one more monitoring update from there (state \<open>s''\<close>), the dictionary that
  \<open>snap\<close> refers to has the content it had in \<open>s\<close>, and it is not the dictionary of the
  current readings, which the update writes to. The snapshot that the update itself
  appends refers to a dictionary of its own whose content is that of the current
  readings at that update.
\<close>

theorem snapshot_immutable:
  assumes "session_runs before initial_session = Inr s"
    and "snap \<in> set (historical_data s)"
    and "session_runs later s = Inr s'"
    and "is_monitoring s'"
    and "monitoring_update t g s' = Inr s''"
  shows "heap s' (snap_data snap) = heap s (snap_data snap) \<and>
         heap s'' (snap_data snap) = heap s (snap_data snap) \<and>
         snap_data snap \<noteq> cells_data s'' \<and>
         snap_data (last (historical_data s'')) \<noteq> cells_data s'' \<and>
         heap s'' (snap_data (last (historical_data s''))) = heap s'' (cells_data s'')"
proof -
  have w: "wf_session s" using assms(1) by (rule reachable_wf)
  then have c: "cells_data s < next_addr s" by (simp add: wf_session_def)
  with assms(3) have e1: "evolves s s'" by (rule session_runs_evolves)
  then have c': "cells_data s' < next_addr s'" by (simp add: evolves_def)
  with assms(5) have "evolves s' s''" by (rule monitoring_update_evolves)
  with e1 have e2: "evolves s s''" by (rule evolves_trans)
  note l = monitoring_update_snapshot [OF assms(4,5)]
  have "snap_data (last (historical_data s'')) \<noteq> cells_data s''"
    using l(3) c' monitoring_update_keys(1) [OF assms(5)] by simp
  moreover have "heap s'' (snap_data (last (historical_data s''))) = heap s'' (cells_data s'')"
    using l(2,3) by simp
  ultimately show ?thesis
    using evolves_snapshot [OF w e1 assms(2)] evolves_snapshot [OF w e2 assms(2)] by simp
qed

theorem snapshot_immutable_witness:
  "\<exists>s s' s''.
     session_runs [click_initialize, click_start] initial_session = Inr s \<and>
     \<lparr>snap_timestamp = 21, snap_data = 2\<rparr> \<in> set (historical_data s) \<and>
     session_runs [rerender] s = Inr s' \<and> is_monitoring s' \<and>
     monitoring_update 50 (\<lambda>_. example_draws) s' = Inr s'' \<and>
     heap s 2 = heap s (cells_data s) \<and>
     heap s' (cells_data s') \<noteq> heap s 2 \<and>
     heap s' 2 = heap s 2 \<and> heap s'' 2 = heap s 2"
proof -
  obtain s s' s'' where 1: "session_runs [click_initialize, click_start] initial_session = Inr s"
    and 2: "\<lparr>snap_timestamp = 21, snap_data = 2\<rparr> \<in> set (historical_data s)"
    and 3: "session_runs [rerender] s = Inr s'" and 4: "is_monitoring s'"
    and 5: "monitoring_update 50 (\<lambda>_. example_draws) s' = Inr s''"
    and 6: "heap s' (cells_data s') \<noteq> heap s 2" "heap s 2 = heap s (cells_data s)"
    using snapshot_run by (auto split: sum.splits)
  from snapshot_immutable [OF 1 2 3 4 5] have "heap s' 2 = heap s 2 \<and> heap s'' 2 = heap s 2"
    by simp
  with 1 2 3 4 5 6 show ?thesis by blast
qed

end
